theory Spec2Isabelle
  imports Complex_Main "HOL-Library.Word" "HOL-Library.Sublist"
begin

unbundle bit_operations_syntax

section \<open>Strings and numbers of the host language\<close>

text \<open>
  A JavaScript string is a sequence of 16-bit code units; \<open>length\<close>, \<open>trim\<close>,
  \<open>slice\<close> and \<open>===\<close> all work on code units.  An ASCII literal of the source is
  written \<open>js ''...''\<close>.
\<close>

type_synonym jsstring = "16 word list"

definition js :: "string \<Rightarrow> jsstring" where
  "js s = map (\<lambda>c. word_of_nat (of_char c :: nat)) s"

text \<open>
  \<open>String.prototype.trim\<close> removes the code units of the WhiteSpace and LineTerminator
  productions from both ends: TAB, LF, VT, FF, CR, SPACE, NBSP, the Unicode space
  separators, LS, PS and the byte order mark.
\<close>

definition is_ws :: "16 word \<Rightarrow> bool" where
  "is_ws c \<longleftrightarrow>
     c = 0x09 \<or> c = 0x0A \<or> c = 0x0B \<or> c = 0x0C \<or> c = 0x0D \<or> c = 0x20 \<or>
     c = 0xA0 \<or> c = 0x1680 \<or> (0x2000 \<le> c \<and> c \<le> 0x200A) \<or>
     c = 0x2028 \<or> c = 0x2029 \<or> c = 0x202F \<or> c = 0x205F \<or> c = 0x3000 \<or>
     c = 0xFEFF"

definition trim :: "jsstring \<Rightarrow> jsstring" where
  "trim s = rev (dropWhile is_ws (rev (dropWhile is_ws s)))"

text \<open>\<open>s.slice(a, b)\<close> for \<open>0 \<le> a \<le> b\<close>: the code units from index \<open>a\<close> up to \<open>b\<close>,
  as far as the string reaches.\<close>

definition slice :: "nat \<Rightarrow> nat \<Rightarrow> jsstring \<Rightarrow> jsstring" where
  "slice a b s = take (b - a) (drop a s)"

text \<open>
  \<open>Number.prototype.toString(radix)\<close> on an integer: the digits \<open>0-9a-z\<close>, most
  significant first, with a minus sign for a negative value.  The template literal
  \<open>`${n}`\<close> is the case \<open>radix = 10\<close>.  (Beyond \<open>10^21\<close> JavaScript switches to
  exponent notation; array lengths and clock readings stay far below.)
\<close>

definition digit_unit :: "nat \<Rightarrow> 16 word" where
  "digit_unit d = (if d < 10 then word_of_nat (48 + d) else word_of_nat (87 + d))"

function to_radix :: "nat \<Rightarrow> nat \<Rightarrow> jsstring" where
  "to_radix b n =
     (if n < b \<or> b < 2 then [digit_unit n]
      else to_radix b (n div b) @ [digit_unit (n mod b)])"
  by pat_completeness auto
termination
  by (relation "measure snd") (auto simp: div_less_dividend)

declare to_radix.simps [simp del]

definition toString :: "nat \<Rightarrow> int \<Rightarrow> jsstring" where
  "toString radix i =
     (if i < 0 then 0x2D # to_radix radix (nat (- i)) else to_radix radix (nat i))"

section \<open>Writing JSON\<close>

text \<open>
  \<open>JSON.stringify\<close> quotes a string as follows: the two-character escapes for
  backspace, tab, line feed, form feed, carriage return, the double quote and the
  backslash; \<open>\uXXXX\<close> with lower-case hexadecimal digits for every other code unit
  below \<open>0x20\<close> and for a surrogate that is not part of a pair; every other code unit
  (and both halves of a surrogate pair) as it is.
\<close>

definition hex4 :: "16 word \<Rightarrow> jsstring" where
  "hex4 c = (let n = unat c in
     [digit_unit (n div 4096), digit_unit (n div 256 mod 16), digit_unit (n div 16 mod 16),
      digit_unit (n mod 16)])"

definition unicode_escape :: "16 word \<Rightarrow> jsstring" where
  "unicode_escape c = 0x5C # 0x75 # hex4 c"

definition is_lead :: "16 word \<Rightarrow> bool" where
  "is_lead c \<longleftrightarrow> 0xD800 \<le> c \<and> c \<le> 0xDBFF"

definition is_trail :: "16 word \<Rightarrow> bool" where
  "is_trail c \<longleftrightarrow> 0xDC00 \<le> c \<and> c \<le> 0xDFFF"

definition quote_unit :: "16 word \<Rightarrow> jsstring" where
  "quote_unit c =
     (if c = 0x08 then [0x5C, 0x62]
      else if c = 0x09 then [0x5C, 0x74]
      else if c = 0x0A then [0x5C, 0x6E]
      else if c = 0x0C then [0x5C, 0x66]
      else if c = 0x0D then [0x5C, 0x72]
      else if c = 0x22 then [0x5C, 0x22]
      else if c = 0x5C then [0x5C, 0x5C]
      else if c < 0x20 \<or> is_lead c \<or> is_trail c then unicode_escape c
      else [c])"

fun quote_body :: "jsstring \<Rightarrow> jsstring" where
  "quote_body [] = []"
| "quote_body [c] = quote_unit c"
| "quote_body (c # d # cs) =
     (if is_lead c \<and> is_trail d then c # d # quote_body cs
      else quote_unit c @ quote_body (d # cs))"

definition JSON_quote :: "jsstring \<Rightarrow> jsstring" where
  "JSON_quote s = 0x22 # quote_body s @ [0x22]"

text \<open>A property name followed by the colon, and a boolean.  The property names of this
  program are plain ASCII words, which need no escape.\<close>

definition json_key :: "string \<Rightarrow> jsstring" where
  "json_key k = 0x22 # js k @ [0x22, 0x3A]"

definition stringify_bool :: "bool \<Rightarrow> jsstring" where
  "stringify_bool b = (if b then js ''true'' else js ''false'')"

section \<open>Reading JSON\<close>

text \<open>
  \<open>JSON.parse\<close>, in two passes.  The lexer splits the text into tokens: punctuation,
  string literals with their escapes decoded, number literals with their value, and
  the three names; white space between tokens is skipped.  A pushdown automaton then
  builds the value.  Both return \<open>None\<close> where \<open>JSON.parse\<close> throws a
  \<open>SyntaxError\<close>.

  A number is kept as the exact rational its literal denotes.  \<open>JSON.parse\<close> rounds it
  to the nearest binary64 value; the two agree on the integers this program writes
  (values of \<open>Date.now()\<close>).  An object is the list of its properties in creation
  order; a repeated name overwrites the earlier value in place.
\<close>

datatype json =
    JNull
  | JBool bool
  | JNum rat
  | JStr jsstring
  | JArr "json list"
  | JObj "(jsstring \<times> json) list"

datatype token =
    LBrace | RBrace | LBracket | RBracket | Colon | Comma
  | TString jsstring | TNumber rat | TTrue | TFalse | TNull

definition is_json_ws :: "16 word \<Rightarrow> bool" where
  "is_json_ws c \<longleftrightarrow> c = 0x09 \<or> c = 0x0A \<or> c = 0x0D \<or> c = 0x20"

definition is_digit :: "16 word \<Rightarrow> bool" where
  "is_digit c \<longleftrightarrow> 0x30 \<le> c \<and> c \<le> 0x39"

definition digit_value :: "16 word \<Rightarrow> nat" where
  "digit_value c = unat c - 48"

definition digits_value :: "jsstring \<Rightarrow> nat" where
  "digits_value ds = foldl (\<lambda>a d. 10 * a + digit_value d) 0 ds"

definition hex_value :: "16 word \<Rightarrow> nat option" where
  "hex_value c =
     (if 0x30 \<le> c \<and> c \<le> 0x39 then Some (unat c - 48)
      else if 0x41 \<le> c \<and> c \<le> 0x46 then Some (unat c - 55)
      else if 0x61 \<le> c \<and> c \<le> 0x66 then Some (unat c - 87)
      else None)"

definition unhex4 :: "16 word \<Rightarrow> 16 word \<Rightarrow> 16 word \<Rightarrow> 16 word \<Rightarrow> 16 word option" where
  "unhex4 a b c d =
     (case (hex_value a, hex_value b, hex_value c, hex_value d) of
        (Some h3, Some h2, Some h1, Some h0) \<Rightarrow>
          Some (word_of_nat (((h3 * 16 + h2) * 16 + h1) * 16 + h0))
      | _ \<Rightarrow> None)"

definition unescape :: "16 word \<Rightarrow> 16 word option" where
  "unescape e =
     (if e = 0x22 then Some 0x22
      else if e = 0x5C then Some 0x5C
      else if e = 0x2F then Some 0x2F
      else if e = 0x62 then Some 0x08
      else if e = 0x66 then Some 0x0C
      else if e = 0x6E then Some 0x0A
      else if e = 0x72 then Some 0x0D
      else if e = 0x74 then Some 0x09
      else None)"

definition cons_unit :: "16 word \<Rightarrow> (jsstring \<times> jsstring) option \<Rightarrow> (jsstring \<times> jsstring) option" where
  "cons_unit u r = map_option (\<lambda>(s, rest). (u # s, rest)) r"

text \<open>The characters of a string literal after its opening quote: the decoded string and
  the text after the closing quote.\<close>

fun lex_string :: "jsstring \<Rightarrow> (jsstring \<times> jsstring) option" where
  "lex_string [] = None"
| "lex_string (c # cs) =
     (if c = 0x22 then Some ([], cs)
      else if c = 0x5C then
        (case cs of
           [] \<Rightarrow> None
         | e # r \<Rightarrow>
             if e = 0x75 then
               (case r of
                  h3 # h2 # h1 # h0 # r' \<Rightarrow>
                    (case unhex4 h3 h2 h1 h0 of
                       None \<Rightarrow> None
                     | Some u \<Rightarrow> cons_unit u (lex_string r'))
                | _ \<Rightarrow> None)
             else
               (case unescape e of
                  None \<Rightarrow> None
                | Some u \<Rightarrow> cons_unit u (lex_string r)))
      else if c < 0x20 then None
      else cons_unit c (lex_string cs))"

text \<open>
  A number literal: an optional minus sign, the integer part (\<open>0\<close>, or digits that do
  not start with \<open>0\<close>), an optional fraction and an optional exponent.
\<close>

definition lex_int_part :: "jsstring \<Rightarrow> (nat \<times> jsstring) option" where
  "lex_int_part s =
     (case s of
        [] \<Rightarrow> None
      | d # r \<Rightarrow>
          if d = 0x30 then Some (0, r)
          else if is_digit d then
            Some (digits_value (takeWhile is_digit s), dropWhile is_digit s)
          else None)"

definition lex_fraction :: "jsstring \<Rightarrow> (rat \<times> jsstring) option" where
  "lex_fraction s =
     (case s of
        [] \<Rightarrow> Some (0, s)
      | d # r \<Rightarrow>
          if d = 0x2E then
            (let ds = takeWhile is_digit r
             in if ds = [] then None
                else Some (of_nat (digits_value ds) / 10 ^ length ds, dropWhile is_digit r))
          else Some (0, s))"

definition lex_sign :: "jsstring \<Rightarrow> bool \<times> jsstring" where
  "lex_sign s =
     (case s of
        [] \<Rightarrow> (False, s)
      | c # r \<Rightarrow> if c = 0x2D then (True, r) else if c = 0x2B then (False, r) else (False, s))"

definition lex_exponent :: "jsstring \<Rightarrow> (int \<times> jsstring) option" where
  "lex_exponent s =
     (case s of
        [] \<Rightarrow> Some (0, s)
      | e # r \<Rightarrow>
          if e = 0x65 \<or> e = 0x45 then
            (let (neg, r') = lex_sign r; ds = takeWhile is_digit r'
             in if ds = [] then None
                else Some (if neg then - int (digits_value ds) else int (digits_value ds),
                           dropWhile is_digit r'))
          else Some (0, s))"

definition scale10 :: "rat \<Rightarrow> int \<Rightarrow> rat" where
  "scale10 q e = (if 0 \<le> e then q * 10 ^ nat e else q / 10 ^ nat (- e))"

definition lex_minus :: "jsstring \<Rightarrow> bool \<times> jsstring" where
  "lex_minus s = (case s of [] \<Rightarrow> (False, s) | c # r \<Rightarrow> if c = 0x2D then (True, r) else (False, s))"

definition lex_number :: "jsstring \<Rightarrow> (rat \<times> jsstring) option" where
  "lex_number s =
     (case lex_minus s of
        (neg, s1) \<Rightarrow>
          (case lex_int_part s1 of
             None \<Rightarrow> None
           | Some (ip, s2) \<Rightarrow>
               (case lex_fraction s2 of
                  None \<Rightarrow> None
                | Some (fr, s3) \<Rightarrow>
                    (case lex_exponent s3 of
                       None \<Rightarrow> None
                     | Some (ex, s4) \<Rightarrow>
                         Some ((if neg then - 1 else 1) * scale10 (of_nat ip + fr) ex, s4)))))"

text \<open>Each literal consumes at least one character, so the lexer terminates.\<close>

lemma lex_string_length: "lex_string s = Some (v, rest) \<Longrightarrow> length rest < length s"
proof (induction s arbitrary: v rest rule: lex_string.induct)
  case 1
  then show ?case by simp
next
  case (2 c cs)
  then show ?case
    by (fastforce simp: cons_unit_def split: if_splits list.splits option.splits)
qed

lemma lex_int_part_length: "lex_int_part s = Some (v, rest) \<Longrightarrow> length rest < length s"
  by (auto simp: lex_int_part_def length_dropWhile_le le_imp_less_Suc split: list.splits if_splits)

lemma lex_fraction_length: "lex_fraction s = Some (v, rest) \<Longrightarrow> length rest \<le> length s"
  by (auto simp: lex_fraction_def Let_def length_dropWhile_le le_SucI split: list.splits if_splits)

lemma lex_sign_length: "lex_sign s = (b, rest) \<Longrightarrow> length rest \<le> length s"
  by (auto simp: lex_sign_def split: list.splits if_splits)

lemma lex_exponent_length: "lex_exponent s = Some (v, rest) \<Longrightarrow> length rest \<le> length s"
proof -
  assume a: "lex_exponent s = Some (v, rest)"
  show ?thesis
  proof (cases s)
    case Nil
    with a show ?thesis by (simp add: lex_exponent_def)
  next
    case (Cons e r)
    obtain neg r' where sg: "lex_sign r = (neg, r')" by (cases "lex_sign r")
    have "length (dropWhile is_digit r') \<le> length r'" by (rule length_dropWhile_le)
    with lex_sign_length [OF sg] have "length (dropWhile is_digit r') \<le> length s"
      using Cons by simp
    with a Cons sg show ?thesis
      by (auto simp: lex_exponent_def Let_def split: if_splits)
  qed
qed

lemma lex_minus_length: "lex_minus s = (b, rest) \<Longrightarrow> length rest \<le> length s"
  by (auto simp: lex_minus_def split: list.splits if_splits)

lemma lex_number_length:
  assumes "lex_number s = Some (v, rest)"
  shows "length rest < length s"
proof -
  obtain neg s1 where m: "lex_minus s = (neg, s1)" by (cases "lex_minus s")
  from assms m obtain ip s2 where i: "lex_int_part s1 = Some (ip, s2)"
    by (cases "lex_int_part s1") (auto simp: lex_number_def)
  from assms m i obtain fr s3 where f: "lex_fraction s2 = Some (fr, s3)"
    by (cases "lex_fraction s2") (auto simp: lex_number_def)
  from assms m i f obtain ex s4 where e: "lex_exponent s3 = Some (ex, s4)"
    by (cases "lex_exponent s3") (auto simp: lex_number_def)
  from assms m i f e have r: "s4 = rest" by (simp add: lex_number_def)
  have "length s1 \<le> length s" using m by (rule lex_minus_length)
  moreover have "length s2 < length s1" using i by (rule lex_int_part_length)
  moreover have "length s3 \<le> length s2" using f by (rule lex_fraction_length)
  moreover have "length s4 \<le> length s3" using e by (rule lex_exponent_length)
  ultimately show ?thesis using r by simp
qed

function tokenize :: "jsstring \<Rightarrow> token list option" where
  "tokenize [] = Some []"
| "tokenize (c # cs) =
     (if is_json_ws c then tokenize cs
      else if c = 0x7B then map_option (Cons LBrace) (tokenize cs)
      else if c = 0x7D then map_option (Cons RBrace) (tokenize cs)
      else if c = 0x5B then map_option (Cons LBracket) (tokenize cs)
      else if c = 0x5D then map_option (Cons RBracket) (tokenize cs)
      else if c = 0x3A then map_option (Cons Colon) (tokenize cs)
      else if c = 0x2C then map_option (Cons Comma) (tokenize cs)
      else if c = 0x22 then
        (case lex_string cs of
           None \<Rightarrow> None
         | Some (s, rest) \<Rightarrow> map_option (Cons (TString s)) (tokenize rest))
      else if c = 0x2D \<or> is_digit c then
        (case lex_number (c # cs) of
           None \<Rightarrow> None
         | Some (q, rest) \<Rightarrow> map_option (Cons (TNumber q)) (tokenize rest))
      else if take 4 (c # cs) = js ''true'' then map_option (Cons TTrue) (tokenize (drop 3 cs))
      else if take 5 (c # cs) = js ''false'' then map_option (Cons TFalse) (tokenize (drop 4 cs))
      else if take 4 (c # cs) = js ''null'' then map_option (Cons TNull) (tokenize (drop 3 cs))
      else None)"
  by pat_completeness auto
termination
proof (relation "measure length")
  show "wf (measure length)" by simp
next
  fix c cs x2 x y
  assume "lex_string cs = Some x2" "(x, y) = x2"
  then show "(y, c # cs) \<in> measure length"
    using lex_string_length [of cs x y] by simp
next
  fix c cs x2 x y
  assume "lex_number (c # cs) = Some x2" "(x, y) = x2"
  then show "(y, c # cs) \<in> measure length"
    using lex_number_length [of "c # cs" x y] by simp
qed simp_all

declare tokenize.simps(2) [simp del]

text \<open>
  The automaton.  Its stack holds the arrays and objects that are still open, each with
  what it has collected so far (and, for an object, the name whose value is being
  read).  The states say what may come next: a value; the first element or the closing
  bracket of an array; the first name or the closing brace of an object; a name; the
  colon after a name; or what follows a complete value.
\<close>

datatype frame = InArr "json list" | InObj "(jsstring \<times> json) list" jsstring

datatype pstate =
    Value "frame list"
  | ArrStart "frame list"
  | ObjStart "frame list"
  | Key "(jsstring \<times> json) list" "frame list"
  | AfterKey "(jsstring \<times> json) list" jsstring "frame list"
  | After json "frame list"

fun put_member :: "jsstring \<Rightarrow> json \<Rightarrow> (jsstring \<times> json) list \<Rightarrow> (jsstring \<times> json) list" where
  "put_member k v [] = [(k, v)]"
| "put_member k v ((k', v') # ms) =
     (if k' = k then (k, v) # ms else (k', v') # put_member k v ms)"

fun begin_value :: "token \<Rightarrow> frame list \<Rightarrow> pstate option" where
  "begin_value LBrace st = Some (ObjStart st)"
| "begin_value LBracket st = Some (ArrStart st)"
| "begin_value (TString s) st = Some (After (JStr s) st)"
| "begin_value (TNumber q) st = Some (After (JNum q) st)"
| "begin_value TTrue st = Some (After (JBool True) st)"
| "begin_value TFalse st = Some (After (JBool False) st)"
| "begin_value TNull st = Some (After JNull st)"
| "begin_value _ st = None"

fun step :: "pstate \<Rightarrow> token \<Rightarrow> pstate option" where
  "step (Value st) t = begin_value t st"
| "step (ArrStart st) t =
     (if t = RBracket then Some (After (JArr []) st) else begin_value t (InArr [] # st))"
| "step (ObjStart st) t =
     (case t of
        RBrace \<Rightarrow> Some (After (JObj []) st)
      | TString k \<Rightarrow> Some (AfterKey [] k st)
      | _ \<Rightarrow> None)"
| "step (Key ms st) t = (case t of TString k \<Rightarrow> Some (AfterKey ms k st) | _ \<Rightarrow> None)"
| "step (AfterKey ms k st) t = (if t = Colon then Some (Value (InObj ms k # st)) else None)"
| "step (After v []) t = None"
| "step (After v (InArr vs # st)) t =
     (case t of
        Comma \<Rightarrow> Some (Value (InArr (vs @ [v]) # st))
      | RBracket \<Rightarrow> Some (After (JArr (vs @ [v])) st)
      | _ \<Rightarrow> None)"
| "step (After v (InObj ms k # st)) t =
     (case t of
        Comma \<Rightarrow> Some (Key (put_member k v ms) st)
      | RBrace \<Rightarrow> Some (After (JObj (put_member k v ms)) st)
      | _ \<Rightarrow> None)"

fun run :: "pstate \<Rightarrow> token list \<Rightarrow> json option" where
  "run s [] = (case s of After v [] \<Rightarrow> Some v | _ \<Rightarrow> None)"
| "run s (t # ts) = (case step s t of None \<Rightarrow> None | Some s' \<Rightarrow> run s' ts)"

definition JSON_parse :: "jsstring \<Rightarrow> json option" where
  "JSON_parse s = (case tokenize s of None \<Rightarrow> None | Some ts \<Rightarrow> run (Value []) ts)"

text \<open>Reading the property \<open>k\<close> of a value: \<open>None\<close> is \<open>undefined\<close>.\<close>

definition get_prop :: "jsstring \<Rightarrow> json \<Rightarrow> json option" where
  "get_prop k v = (case v of JObj ms \<Rightarrow> map_of ms k | _ \<Rightarrow> None)"

section \<open>The local variant: data and state\<close>

text \<open>
  A task item as \<open>addTodo\<close> builds it:
  \<open>{ id, text, completed, createdAt }\<close>, the properties in this order.
  \<open>createdAt\<close> is a value of \<open>Date.now()\<close>, an integer number of milliseconds.
\<close>

record todo =
  todo_id :: jsstring
  todo_text :: jsstring
  completed :: bool
  createdAt :: int

text \<open>
  \<open>JSON.stringify(todos)\<close> on an array of such objects: no white space, the
  properties in creation order, an integer number in decimal.
\<close>

definition stringify_todo :: "todo \<Rightarrow> jsstring" where
  "stringify_todo t =
     0x7B # json_key ''id'' @ JSON_quote (todo_id t) @
     0x2C # json_key ''text'' @ JSON_quote (todo_text t) @
     0x2C # json_key ''completed'' @ stringify_bool (completed t) @
     0x2C # json_key ''createdAt'' @ toString 10 (createdAt t) @ [0x7D]"

fun join_comma :: "jsstring list \<Rightarrow> jsstring" where
  "join_comma [] = []"
| "join_comma [x] = x"
| "join_comma (x # y # zs) = x @ 0x2C # join_comma (y # zs)"

definition stringify_todos :: "todo list \<Rightarrow> jsstring" where
  "stringify_todos ts = 0x5B # join_comma (map stringify_todo ts) @ [0x5D]"

text \<open>The same collection as a value of JavaScript: an array of objects.\<close>

definition todo_json :: "todo \<Rightarrow> json" where
  "todo_json t =
     JObj [(js ''id'', JStr (todo_id t)), (js ''text'', JStr (todo_text t)),
           (js ''completed'', JBool (completed t)),
           (js ''createdAt'', JNum (of_int (createdAt t)))]"

definition todos_json :: "todo list \<Rightarrow> json" where
  "todos_json ts = JArr (map todo_json ts)"

text \<open>
  The document: one list row per item (class name, \<open>data-id\<close>, the checkbox and the
  text), the empty-state placeholder's \<open>display\<close> style, and the text of the count
  label.
\<close>

record row =
  className :: jsstring
  dataset_id :: jsstring
  checked :: bool
  textContent :: jsstring

record dom =
  list_rows :: "row list"
  empty_display :: jsstring
  count_text :: jsstring

text \<open>
  The effects a claim can speak of are logged in the order they happen:
  a call of \<open>localStorage.setItem\<close> (the persistence call) and a call of \<open>render\<close>.
  \<open>storage\<close> is the content of \<open>localStorage\<close>; \<open>setItem\<close> is taken to succeed.
\<close>

datatype effect = SetItem jsstring jsstring | Render

record lstate =
  todos :: "todo list"
  storage :: "jsstring \<rightharpoonup> jsstring"
  view :: dom
  trace :: "effect list"

definition STORAGE_KEY :: jsstring where
  "STORAGE_KEY = js ''todos:v1''"

section \<open>The local variant: operations\<close>

text \<open>
  \<open>load\<close> assigns to \<open>todos\<close> whatever \<open>JSON.parse\<close> returns; the model gives that
  value.  Its argument is the outcome of \<open>localStorage.getItem(STORAGE_KEY)\<close>: an
  exception (the browser denies access to the storage), \<open>null\<close> for a missing key, or
  the stored string.  \<open>load_try\<close> is the body of the \<open>try\<close> block, \<open>load\<close> adds the
  \<open>catch\<close>.  The empty string is the only falsy string.
\<close>

datatype js_error = SyntaxError | TypeError | SecurityError | ApiError json | IllTyped

definition getItem :: "(jsstring \<rightharpoonup> jsstring) \<Rightarrow> jsstring \<Rightarrow> js_error + jsstring option" where
  "getItem m k = Inr (m k)"

definition JSON_parse_or_throw :: "jsstring \<Rightarrow> js_error + json" where
  "JSON_parse_or_throw s = (case JSON_parse s of None \<Rightarrow> Inl SyntaxError | Some v \<Rightarrow> Inr v)"

definition load_try :: "js_error + jsstring option \<Rightarrow> js_error + json" where
  "load_try got =
     (case got of
        Inl e \<Rightarrow> Inl e
      | Inr None \<Rightarrow> Inr (JArr [])
      | Inr (Some raw) \<Rightarrow> if raw \<noteq> [] then JSON_parse_or_throw raw else Inr (JArr []))"

definition load :: "js_error + jsstring option \<Rightarrow> js_error + json" where
  "load got = (case load_try got of Inl e \<Rightarrow> Inr (JArr []) | Inr v \<Rightarrow> Inr v)"

definition save :: "lstate \<Rightarrow> lstate" where
  "save st =
     st\<lparr>storage := (storage st)(STORAGE_KEY \<mapsto> stringify_todos (todos st)),
        trace := trace st @ [SetItem STORAGE_KEY (stringify_todos (todos st))]\<rparr>"

text \<open>
  \<open>nextId\<close> reads the clock and the random generator; the model takes both readings
  as arguments: \<open>now\<close> is \<open>Date.now()\<close>, \<open>rnd\<close> is \<open>Math.random().toString(36)\<close>.
\<close>

definition nextId :: "int \<Rightarrow> jsstring \<Rightarrow> jsstring" where
  "nextId now rnd = toString 36 now @ slice 2 8 rnd"

definition active_count :: "todo list \<Rightarrow> nat" where
  "active_count ts = length (filter (\<lambda>t. \<not> completed t) ts)"

definition count_label :: "nat \<Rightarrow> jsstring" where
  "count_label active =
     toString 10 (int active) @ js '' '' @ (if active = 1 then js ''item'' else js ''items'')"

definition renderCounts :: "lstate \<Rightarrow> lstate" where
  "renderCounts st =
     (let active = active_count (todos st)
      in st\<lparr>view := (view st)\<lparr>count_text := count_label active\<rparr>\<rparr>)"

definition render_row :: "todo \<Rightarrow> row" where
  "render_row t =
     \<lparr>className = js ''todo-item'' @ (if completed t then js '' completed'' else []),
      dataset_id = todo_id t,
      checked = completed t,
      textContent = todo_text t\<rparr>"

definition render :: "lstate \<Rightarrow> lstate" where
  "render st =
     renderCounts
       (st\<lparr>view := (view st)
             \<lparr>list_rows := map render_row (todos st),
              empty_display := (if length (todos st) = 0 then js ''block'' else js ''none'')\<rparr>,
           trace := trace st @ [Render]\<rparr>)"

text \<open>
  \<open>addTodo\<close> takes the three readings of the environment it makes, in the order it
  makes them: the clock and the random string of \<open>nextId\<close>, then the clock of
  \<open>createdAt\<close>.
\<close>

definition addTodo :: "int \<Rightarrow> jsstring \<Rightarrow> int \<Rightarrow> jsstring \<Rightarrow> lstate \<Rightarrow> lstate" where
  "addTodo now rnd now' text_in st =
     (let t = trim text_in
      in if t = [] then st
         else render (save (st\<lparr>todos :=
                \<lparr>todo_id = nextId now rnd, todo_text = t, completed = False,
                 createdAt = now'\<rparr> # todos st\<rparr>)))"

text \<open>
  \<open>toggleTodo\<close> assigns to the object that \<open>find\<close> returns, which is the first
  element of the array with that id; the array holds this object once.
\<close>

fun assign_completed :: "jsstring \<Rightarrow> bool \<Rightarrow> todo list \<Rightarrow> todo list" where
  "assign_completed i c [] = []"
| "assign_completed i c (x # xs) =
     (if todo_id x = i then x\<lparr>completed := c\<rparr> # xs
      else x # assign_completed i c xs)"

definition toggleTodo :: "jsstring \<Rightarrow> bool \<Rightarrow> lstate \<Rightarrow> lstate" where
  "toggleTodo i c st =
     (case find (\<lambda>x. todo_id x = i) (todos st) of
        None \<Rightarrow> st
      | Some t \<Rightarrow> render (save (st\<lparr>todos := assign_completed i c (todos st)\<rparr>)))"

definition deleteTodo :: "jsstring \<Rightarrow> lstate \<Rightarrow> lstate" where
  "deleteTodo i st =
     render (save (st\<lparr>todos := filter (\<lambda>x. todo_id x \<noteq> i) (todos st)\<rparr>))"

definition clearCompleted :: "lstate \<Rightarrow> lstate" where
  "clearCompleted st =
     (let before = length (todos st);
          st' = st\<lparr>todos := filter (\<lambda>x. \<not> completed x) (todos st)\<rparr>
      in if length (todos st') \<noteq> before then render (save st') else st')"

text \<open>
  The state when the script starts on an empty storage, and the collection of the
  specification's example, \<open>[{a, false}, {b, true}]\<close>, rendered.
\<close>

definition initial_state :: lstate where
  "initial_state =
     \<lparr>todos = [], storage = Map.empty,
      view = \<lparr>list_rows = [], empty_display = [], count_text = []\<rparr>, trace = []\<rparr>"

definition item_a :: todo where
  "item_a = \<lparr>todo_id = js ''a'', todo_text = js ''a'', completed = False, createdAt = 1\<rparr>"

definition item_b :: todo where
  "item_b = \<lparr>todo_id = js ''b'', todo_text = js ''b'', completed = True, createdAt = 2\<rparr>"

definition example_state :: lstate where
  "example_state = render (initial_state\<lparr>todos := [item_a, item_b]\<rparr>)"

text \<open>An item without its completion flag.\<close>

definition without_flag :: "todo \<Rightarrow> jsstring \<times> jsstring \<times> int" where
  "without_flag t = (todo_id t, todo_text t, createdAt t)"

section \<open>The remote variant\<close>

text \<open>
  The collection comes from the server: items with the fields \<open>id\<close>, \<open>content\<close> and
  \<open>is_completed\<close>.  An id is a string or an integer; the template literal
  \<open>`/todos/${id}`\<close> prints it.
\<close>

datatype ident = IdString jsstring | IdNumber int

fun ident_text :: "ident \<Rightarrow> jsstring" where
  "ident_text (IdString s) = s"
| "ident_text (IdNumber n) = toString 10 n"

record item =
  item_id :: ident
  content :: jsstring
  is_completed :: bool

datatype http_method = GET | POST | PUT | DELETE

record request =
  req_method :: http_method
  url :: jsstring
  body :: "jsstring option"

text \<open>
  A response, as far as \<open>api\<close> reads it: the status, the status text, and the result
  of \<open>res.json()\<close> (\<open>None\<close> when the body is not JSON and the promise rejects).
  \<open>res.ok\<close> holds for the statuses 200 to 299.
\<close>

record response =
  status :: nat
  statusText :: jsstring
  json_body :: "json option"

definition ok :: "response \<Rightarrow> bool" where
  "ok res \<longleftrightarrow> 200 \<le> status res \<and> status res \<le> 299"

text \<open>
  The server is not part of the program.  \<open>fetch\<close> is a parameter: from the state of
  the world and a request it gives the response, or the exception of a failed
  request, and the next state of the world.  The state of the client logs every
  request it has sent.
\<close>

record 'w rstate =
  todos_remote :: "item list"
  view_remote :: dom
  sent :: "request list"
  world :: 'w

type_synonym 'w fetch = "'w \<Rightarrow> request \<Rightarrow> (js_error + response) \<times> 'w"

text \<open>
  \<open>api\<close>: \<open>null\<close> for status 204; for a status that is not ok, an \<open>Error\<close> whose message
  is \<open>err.error || res.statusText\<close>, where \<open>err\<close> is the JSON body or \<open>{}\<close> (reading
  \<open>.error\<close> of \<open>null\<close> is a \<open>TypeError\<close>); otherwise the JSON body.  \<open>ApiError\<close>
  carries the argument of \<open>new Error\<close>.
\<close>

fun truthy :: "json option \<Rightarrow> bool" where
  "truthy None = False"
| "truthy (Some JNull) = False"
| "truthy (Some (JBool b)) = b"
| "truthy (Some (JNum q)) = (q \<noteq> 0)"
| "truthy (Some (JStr s)) = (s \<noteq> [])"
| "truthy (Some (JArr vs)) = True"
| "truthy (Some (JObj ms)) = True"

definition error_of :: "response \<Rightarrow> js_error" where
  "error_of res =
     (case json_body res of
        None \<Rightarrow> ApiError (JStr (statusText res))
      | Some JNull \<Rightarrow> TypeError
      | Some err \<Rightarrow>
          (case get_prop (js ''error'') err of
             None \<Rightarrow> ApiError (JStr (statusText res))
           | Some m \<Rightarrow> if truthy (Some m) then ApiError m else ApiError (JStr (statusText res))))"

definition api :: "'w fetch \<Rightarrow> request \<Rightarrow> 'w rstate \<Rightarrow> (js_error + json) \<times> 'w rstate" where
  "api fetch req st =
     (case fetch (world st) req of
        (got, w) \<Rightarrow>
          (let st' = st\<lparr>sent := sent st @ [req], world := w\<rparr>
           in case got of
                Inl e \<Rightarrow> (Inl e, st')
              | Inr res \<Rightarrow>
                  if status res = 204 then (Inr JNull, st')
                  else if \<not> ok res then (Inl (error_of res), st')
                  else (case json_body res of
                          None \<Rightarrow> (Inl SyntaxError, st')
                        | Some v \<Rightarrow> (Inr v, st'))))"

text \<open>
  \<open>fetchTodos\<close> assigns the response to \<open>todos\<close> and renders.  The model reads the
  response as a list of items; on any other value it stops with \<open>IllTyped\<close> (for a
  value that is not an array \<open>render\<close> throws a \<open>TypeError\<close> at \<open>todos.forEach\<close>).
\<close>

definition item_of_json :: "json \<Rightarrow> item option" where
  "item_of_json v =
     (case (get_prop (js ''id'') v, get_prop (js ''content'') v, get_prop (js ''is_completed'') v) of
        (Some (JStr i), Some (JStr c), Some (JBool b)) \<Rightarrow>
          Some \<lparr>item_id = IdString i, content = c, is_completed = b\<rparr>
      | (Some (JNum q), Some (JStr c), Some (JBool b)) \<Rightarrow>
          if q = of_int \<lfloor>q\<rfloor> then Some \<lparr>item_id = IdNumber \<lfloor>q\<rfloor>, content = c, is_completed = b\<rparr>
          else None
      | _ \<Rightarrow> None)"

fun those_items :: "json list \<Rightarrow> item list option" where
  "those_items [] = Some []"
| "those_items (v # vs) =
     (case item_of_json v of
        None \<Rightarrow> None
      | Some x \<Rightarrow> (case those_items vs of None \<Rightarrow> None | Some xs \<Rightarrow> Some (x # xs)))"

definition items_of_json :: "json \<Rightarrow> item list option" where
  "items_of_json v = (case v of JArr vs \<Rightarrow> those_items vs | _ \<Rightarrow> None)"

definition active_count_remote :: "item list \<Rightarrow> nat" where
  "active_count_remote ts = length (filter (\<lambda>t. \<not> is_completed t) ts)"

definition renderCounts_remote :: "'w rstate \<Rightarrow> 'w rstate" where
  "renderCounts_remote st =
     (let active = active_count_remote (todos_remote st)
      in st\<lparr>view_remote := (view_remote st)\<lparr>count_text := count_label active\<rparr>\<rparr>)"

definition render_row_remote :: "item \<Rightarrow> row" where
  "render_row_remote t =
     \<lparr>className = js ''todo-item'' @ (if is_completed t then js '' completed'' else []),
      dataset_id = ident_text (item_id t),
      checked = is_completed t,
      textContent = content t\<rparr>"

definition render_remote :: "'w rstate \<Rightarrow> 'w rstate" where
  "render_remote st =
     renderCounts_remote
       (st\<lparr>view_remote := (view_remote st)
             \<lparr>list_rows := map render_row_remote (todos_remote st),
              empty_display :=
                (if length (todos_remote st) = 0 then js ''block'' else js ''none'')\<rparr>\<rparr>)"

definition fetchTodos :: "'w fetch \<Rightarrow> 'w rstate \<Rightarrow> js_error option \<times> 'w rstate" where
  "fetchTodos fetch st =
     (case api fetch \<lparr>req_method = GET, url = js ''/todos'', body = None\<rparr> st of
        (Inl e, st') \<Rightarrow> (Some e, st')
      | (Inr v, st') \<Rightarrow>
          (case items_of_json v of
             None \<Rightarrow> (Some IllTyped, st')
           | Some xs \<Rightarrow> (None, render_remote (st'\<lparr>todos_remote := xs\<rparr>))))"

text \<open>
  The three requests that change the server's collection, and the operations.  Each
  operation returns the exception it ends with, if any, and the state it leaves.  The
  steps of an operation run one after another in the order of its \<open>await\<close>s; no other
  event handler runs in between.
\<close>

definition post_request :: "jsstring \<Rightarrow> request" where
  "post_request c =
     \<lparr>req_method = POST, url = js ''/todos'',
      body = Some (0x7B # json_key ''content'' @ JSON_quote c @ [0x7D])\<rparr>"

definition put_request :: "ident \<Rightarrow> bool \<Rightarrow> request" where
  "put_request i c =
     \<lparr>req_method = PUT, url = js ''/todos/'' @ ident_text i,
      body = Some (0x7B # json_key ''is_completed'' @ stringify_bool c @ [0x7D])\<rparr>"

definition delete_request :: "ident \<Rightarrow> request" where
  "delete_request i = \<lparr>req_method = DELETE, url = js ''/todos/'' @ ident_text i, body = None\<rparr>"

definition addTodo_remote :: "'w fetch \<Rightarrow> jsstring \<Rightarrow> 'w rstate \<Rightarrow> js_error option \<times> 'w rstate" where
  "addTodo_remote fetch text_in st =
     (let c = trim text_in
      in if c = [] then (None, st)
         else (case api fetch (post_request c) st of
                 (Inl e, st') \<Rightarrow> (Some e, st')
               | (Inr v, st') \<Rightarrow> fetchTodos fetch st'))"

definition toggleTodo_remote ::
  "'w fetch \<Rightarrow> ident \<Rightarrow> bool \<Rightarrow> 'w rstate \<Rightarrow> js_error option \<times> 'w rstate" where
  "toggleTodo_remote fetch i c st =
     (case api fetch (put_request i c) st of
        (Inl e, st') \<Rightarrow> (Some e, st')
      | (Inr v, st') \<Rightarrow> fetchTodos fetch st')"

definition deleteTodo_remote :: "'w fetch \<Rightarrow> ident \<Rightarrow> 'w rstate \<Rightarrow> js_error option \<times> 'w rstate" where
  "deleteTodo_remote fetch i st =
     (case api fetch (delete_request i) st of
        (Inl e, st') \<Rightarrow> (Some e, st')
      | (Inr v, st') \<Rightarrow> fetchTodos fetch st')"

text \<open>
  \<open>Promise.all(completed.map(t => api(...)))\<close> starts every request at once, in the
  order of the list; the model lets the server answer them in that order.  All of
  them are sent whatever the answers are; if one fails, \<open>clearCompleted\<close> ends with
  the exception of the first request that failed (under this order of answers, the
  first rejection in time) and does not fetch the collection again.
\<close>

fun api_all :: "'w fetch \<Rightarrow> request list \<Rightarrow> 'w rstate \<Rightarrow> js_error option \<times> 'w rstate" where
  "api_all fetch [] st = (None, st)"
| "api_all fetch (r # rs) st =
     (case api fetch r st of
        (got, st') \<Rightarrow>
          (case api_all fetch rs st' of
             (e, st'') \<Rightarrow> ((case got of Inl err \<Rightarrow> Some err | Inr v \<Rightarrow> e), st'')))"


text \<open>The persistence calls of the remote variant are the requests other than \<open>GET\<close>.\<close>

definition persistence_calls :: "'w rstate \<Rightarrow> request list" where
  "persistence_calls st = filter (\<lambda>r. req_method r \<noteq> GET) (sent st)"

text \<open>A server that answers every request with status 404, the client before its first
  fetch, and the client holding the example collection.\<close>

definition not_found :: "unit fetch" where
  "not_found w req = (Inr \<lparr>status = 404, statusText = js ''NOT FOUND'', json_body = None\<rparr>, w)"

definition initial_remote :: "unit rstate" where
  "initial_remote =
     \<lparr>todos_remote = [], view_remote = \<lparr>list_rows = [], empty_display = [], count_text = []\<rparr>,
      sent = [], world = ()\<rparr>"

definition example_remote :: "unit rstate" where
  "example_remote =
     initial_remote\<lparr>todos_remote :=
       [\<lparr>item_id = IdNumber 1, content = js ''a'', is_completed = False\<rparr>,
        \<lparr>item_id = IdNumber 2, content = js ''b'', is_completed = True\<rparr>]\<rparr>"

section \<open>Notions used in the proofs\<close>

text \<open>A number literal ends where the text ends or continues with a character that
  cannot extend it.\<close>

definition number_end :: "jsstring \<Rightarrow> bool" where
  "number_end rest =
     (case rest of [] \<Rightarrow> True | c # _ \<Rightarrow> \<not> is_digit c \<and> c \<noteq> 0x2E \<and> c \<noteq> 0x65 \<and> c \<noteq> 0x45)"

text \<open>The tokens of a stored collection: those of one item, those of the items after
  the first with their commas, and those of the whole array; and the text of the
  items after the first.\<close>

definition todo_tokens :: "todo \<Rightarrow> token list" where
  "todo_tokens t =
     [LBrace, TString (js ''id''), Colon, TString (todo_id t), Comma,
      TString (js ''text''), Colon, TString (todo_text t), Comma,
      TString (js ''completed''), Colon, (if completed t then TTrue else TFalse), Comma,
      TString (js ''createdAt''), Colon, TNumber (of_int (createdAt t)), RBrace]"

definition rest_tokens :: "todo list \<Rightarrow> token list" where
  "rest_tokens ts = concat (map (\<lambda>t. Comma # todo_tokens t) ts)"

definition todos_tokens :: "todo list \<Rightarrow> token list" where
  "todos_tokens ts =
     (case ts of
        [] \<Rightarrow> [LBracket, RBracket]
      | t # ts' \<Rightarrow> LBracket # todo_tokens t @ rest_tokens ts' @ [RBracket])"

definition rest_text :: "todo list \<Rightarrow> jsstring" where
  "rest_text ts = concat (map (\<lambda>t. 0x2C # stringify_todo t) ts)"

section \<open>Properties of the string functions\<close>

lemma js_simps [simp]: "js [] = []" "js (x # xs) = word_of_nat (of_char x) # js xs"
  by (simp_all add: js_def)

lemma dropWhile_all_iff:
  "(\<forall>x\<in>set (dropWhile P xs). P x) \<longleftrightarrow> (\<forall>x\<in>set xs. P x)"
proof
  assume a: "\<forall>x\<in>set (dropWhile P xs). P x"
  have "dropWhile P xs = []"
  proof (rule ccontr)
    assume n: "dropWhile P xs \<noteq> []"
    then have "\<not> P (hd (dropWhile P xs))" by (rule hd_dropWhile)
    moreover from n have "hd (dropWhile P xs) \<in> set (dropWhile P xs)" by simp
    ultimately show False using a by blast
  qed
  then show "\<forall>x\<in>set xs. P x" by (simp add: dropWhile_eq_Nil_conv)
next
  assume "\<forall>x\<in>set xs. P x"
  then show "\<forall>x\<in>set (dropWhile P xs). P x" by (auto dest: set_dropWhileD)
qed

lemma trim_empty_iff: "trim s = [] \<longleftrightarrow> (\<forall>c\<in>set s. is_ws c)"
  by (simp add: trim_def dropWhile_eq_Nil_conv dropWhile_all_iff)

section \<open>Reading back what was written\<close>

subsection \<open>String literals\<close>

lemma unat_word_of_nat16: "n < 65536 \<Longrightarrow> unat (word_of_nat n :: 16 word) = n"
  by (simp add: unat_of_nat)

lemma unat_digit_unit:
  "d < 16 \<Longrightarrow> unat (digit_unit d) = (if d < 10 then 48 + d else 87 + d)"
  unfolding digit_unit_def by (simp add: unat_word_of_nat16 del: of_nat_add of_nat_numeral)

lemma hex_value_unat:
  "hex_value c =
     (if 48 \<le> unat c \<and> unat c \<le> 57 then Some (unat c - 48)
      else if 65 \<le> unat c \<and> unat c \<le> 70 then Some (unat c - 55)
      else if 97 \<le> unat c \<and> unat c \<le> 102 then Some (unat c - 87)
      else None)"
  by (simp add: hex_value_def word_le_nat_alt)

lemma hex_value_digit_unit: "d < 16 \<Longrightarrow> hex_value (digit_unit d) = Some d"
  by (simp add: hex_value_unat unat_digit_unit)

lemma hex_digits_sum:
  "((n div 4096 * 16 + n div 256 mod 16) * 16 + n div 16 mod 16) * 16 + n mod 16 = (n::nat)"
proof -
  have a: "n div 4096 = n div 16 div 16 div 16" by (simp add: div_mult2_eq)
  have b: "n div 256 = n div 16 div 16" by (simp add: div_mult2_eq)
  show ?thesis unfolding a b by (simp only: div_mult_mod_eq)
qed

lemma unat_below_65536: "unat (c :: 16 word) < 65536"
  using unsigned_less [of c, where 'a = nat] by simp

lemma unhex4_hex4:
  "unhex4 (digit_unit (unat c div 4096)) (digit_unit (unat c div 256 mod 16))
     (digit_unit (unat c div 16 mod 16)) (digit_unit (unat c mod 16)) = Some c"
proof -
  have "unat c div 4096 < 16" using unat_below_65536 [of c] by simp
  then have "unhex4 (digit_unit (unat c div 4096)) (digit_unit (unat c div 256 mod 16))
     (digit_unit (unat c div 16 mod 16)) (digit_unit (unat c mod 16)) =
     Some (word_of_nat (((unat c div 4096 * 16 + unat c div 256 mod 16) * 16 +
       unat c div 16 mod 16) * 16 + unat c mod 16))"
    by (simp add: unhex4_def hex_value_digit_unit del: of_nat_add of_nat_mult)
  then have "unhex4 (digit_unit (unat c div 4096)) (digit_unit (unat c div 256 mod 16))
     (digit_unit (unat c div 16 mod 16)) (digit_unit (unat c mod 16)) =
     Some (word_of_nat (unat c))"
    by (simp only: hex_digits_sum)
  then show ?thesis by simp
qed

lemma lex_string_unicode_escape:
  "lex_string (unicode_escape c @ r) = cons_unit c (lex_string r)"
  by (simp add: unicode_escape_def hex4_def Let_def unhex4_hex4)

lemma lex_string_plain:
  "\<not> c < 0x20 \<Longrightarrow> c \<noteq> 0x22 \<Longrightarrow> c \<noteq> 0x5C \<Longrightarrow> lex_string (c # r) = cons_unit c (lex_string r)"
  by simp

lemma lex_string_escape:
  "e \<noteq> 0x75 \<Longrightarrow> unescape e = Some u \<Longrightarrow>
   lex_string (0x5C # e # r) = cons_unit u (lex_string r)"
  by simp

lemma lex_string_quote_unit:
  "lex_string (quote_unit c @ r) = cons_unit c (lex_string r)"
proof (cases "c = 0x08 \<or> c = 0x09 \<or> c = 0x0A \<or> c = 0x0C \<or> c = 0x0D \<or> c = 0x22 \<or> c = 0x5C")
  case True
  then show ?thesis
    by (elim disjE) (simp_all add: quote_unit_def lex_string_escape unescape_def del: lex_string.simps)
next
  case False
  show ?thesis
  proof (cases "c < 0x20 \<or> is_lead c \<or> is_trail c")
    case True
    with False have "quote_unit c = unicode_escape c" by (simp add: quote_unit_def)
    then show ?thesis by (simp only: lex_string_unicode_escape)
  next
    case n: False
    with False have "quote_unit c = [c]" by (simp add: quote_unit_def)
    moreover have "lex_string (c # r) = cons_unit c (lex_string r)"
      using False n by (intro lex_string_plain) simp_all
    ultimately show ?thesis by simp
  qed
qed

declare lex_string.simps(2) [simp del]

lemma lex_string_close [simp]: "lex_string (0x22 # rest) = Some ([], rest)"
  by (simp add: lex_string.simps(2))

lemma surrogate_plain:
  assumes "is_lead c \<or> is_trail c"
  shows "lex_string (c # r) = cons_unit c (lex_string r)"
proof (rule lex_string_plain)
  from assms have u: "0xD800 \<le> unat c"
    by (auto simp: is_lead_def is_trail_def word_le_nat_alt)
  show "\<not> c < 0x20" using u by (simp add: word_less_nat_alt)
  show "c \<noteq> 0x22" using u by auto
  show "c \<noteq> 0x5C" using u by auto
qed

lemma lex_string_quote_body: "lex_string (quote_body s @ 0x22 # rest) = Some (s, rest)"
proof (induction s rule: quote_body.induct)
  case 1
  show ?case by simp
next
  case (2 c)
  show ?case by (simp add: lex_string_quote_unit cons_unit_def)
next
  case (3 c d cs)
  show ?case
  proof (cases "is_lead c \<and> is_trail d")
    case True
    then have "quote_body (c # d # cs) = c # d # quote_body cs" by simp
    moreover have "lex_string (quote_body cs @ 0x22 # rest) = Some (cs, rest)"
      using True 3(1) by simp
    ultimately show ?thesis using True by (simp add: surrogate_plain cons_unit_def)
  next
    case False
    then have "quote_body (c # d # cs) = quote_unit c @ quote_body (d # cs)" by auto
    moreover have "lex_string (quote_body (d # cs) @ 0x22 # rest) = Some (d # cs, rest)"
      using False 3(2) by blast
    ultimately show ?thesis by (simp add: lex_string_quote_unit cons_unit_def)
  qed
qed

subsection \<open>Number literals\<close>

lemma is_digit_unat: "is_digit c \<longleftrightarrow> 48 \<le> unat c \<and> unat c \<le> 57"
  by (simp add: is_digit_def word_le_nat_alt)

lemma is_digit_digit_unit: "d < 10 \<Longrightarrow> is_digit (digit_unit d)"
  by (simp add: is_digit_unat unat_digit_unit)

lemma digit_value_digit_unit: "d < 10 \<Longrightarrow> digit_value (digit_unit d) = d"
  by (simp add: digit_value_def unat_digit_unit)

lemma digits_value_snoc: "digits_value (xs @ [d]) = 10 * digits_value xs + digit_value d"
  by (simp add: digits_value_def)

lemma to_radix_10_digits: "c \<in> set (to_radix 10 n) \<Longrightarrow> is_digit c"
proof (induction n arbitrary: c rule: less_induct)
  case (less n)
  show ?case
  proof (cases "n < 10")
    case True
    with less.prems show ?thesis by (simp add: to_radix.simps [of 10 n] is_digit_digit_unit)
  next
    case False
    then have "n div 10 < n" by simp
    note ih = less.IH [OF this]
    from less.prems False show ?thesis
      by (auto simp: to_radix.simps [of 10 n] is_digit_digit_unit dest: ih)
  qed
qed

lemma digits_value_to_radix: "digits_value (to_radix 10 n) = n"
proof (induction n rule: less_induct)
  case (less n)
  show ?case
  proof (cases "n < 10")
    case True
    then show ?thesis
      by (simp add: to_radix.simps [of 10 n] digits_value_def digit_value_digit_unit)
  next
    case False
    then have "n div 10 < n" by simp
    note ih = less.IH [OF this]
    from False show ?thesis
      by (simp add: to_radix.simps [of 10 n] digits_value_snoc digit_value_digit_unit ih)
  qed
qed

lemma to_radix_head:
  "\<exists>c cs. to_radix 10 n = c # cs \<and> is_digit c \<and> (c = 0x30 \<longrightarrow> n = 0)"
proof (induction n rule: less_induct)
  case (less n)
  show ?case
  proof (cases "n < 10")
    case True
    have "digit_unit n = 0x30 \<Longrightarrow> n = 0"
    proof -
      assume "digit_unit n = 0x30"
      then have "unat (digit_unit n) = 48" by simp
      with True show "n = 0" by (simp add: unat_digit_unit)
    qed
    with True show ?thesis by (auto simp: to_radix.simps [of 10 n] is_digit_digit_unit)
  next
    case False
    then have "n div 10 < n" by simp
    from less [OF this] obtain c cs where
      "to_radix 10 (n div 10) = c # cs" "is_digit c" "c = 0x30 \<longrightarrow> n div 10 = 0"
      by auto
    with False show ?thesis by (auto simp: to_radix.simps [of 10 n])
  qed
qed

lemma takeWhile_digits:
  "\<forall>c\<in>set ds. is_digit c \<Longrightarrow> rest = [] \<or> \<not> is_digit (hd rest) \<Longrightarrow>
   takeWhile is_digit (ds @ rest) = ds \<and> dropWhile is_digit (ds @ rest) = rest"
  by (cases rest) (simp_all add: takeWhile_append2 dropWhile_append2)

lemma number_end_no_digit: "number_end rest \<Longrightarrow> rest = [] \<or> \<not> is_digit (hd rest)"
  by (cases rest) (simp_all add: number_end_def)

lemma lex_int_part_to_radix:
  assumes "number_end rest"
  shows "lex_int_part (to_radix 10 n @ rest) = Some (n, rest)"
proof -
  obtain c cs where h: "to_radix 10 n = c # cs" "is_digit c" "c = 0x30 \<longrightarrow> n = 0"
    using to_radix_head [of n] by auto
  show ?thesis
  proof (cases "n = 0")
    case True
    then show ?thesis by (simp add: to_radix.simps [of 10 0] digit_unit_def lex_int_part_def)
  next
    case False
    have d: "\<forall>c\<in>set (to_radix 10 n). is_digit c" using to_radix_10_digits by blast
    have tw: "takeWhile is_digit (to_radix 10 n @ rest) = to_radix 10 n"
      "dropWhile is_digit (to_radix 10 n @ rest) = rest"
      using takeWhile_digits [OF d number_end_no_digit [OF assms]] by simp_all
    have "lex_int_part ((c # cs) @ rest) =
        Some (digits_value (takeWhile is_digit ((c # cs) @ rest)), dropWhile is_digit ((c # cs) @ rest))"
      using h False by (simp add: lex_int_part_def)
    then show ?thesis using tw by (simp add: h(1) [symmetric] digits_value_to_radix)
  qed
qed

lemma lex_fraction_end: "number_end rest \<Longrightarrow> lex_fraction rest = Some (0, rest)"
  by (cases rest) (simp_all add: lex_fraction_def number_end_def)

lemma lex_exponent_end: "number_end rest \<Longrightarrow> lex_exponent rest = Some (0, rest)"
  by (cases rest) (simp_all add: lex_exponent_def number_end_def)

lemma lex_number_nat:
  assumes "number_end rest"
  shows "lex_number (to_radix 10 n @ rest) = Some (of_nat n, rest)"
proof -
  obtain c cs where h: "to_radix 10 n = c # cs" "is_digit c"
    using to_radix_head [of n] by auto
  from h(2) have "c \<noteq> 0x2D" by (auto simp: is_digit_unat)
  then have "lex_minus (to_radix 10 n @ rest) = (False, to_radix 10 n @ rest)"
    by (simp add: lex_minus_def h(1))
  then show ?thesis
    by (simp add: lex_number_def lex_int_part_to_radix [OF assms] lex_fraction_end [OF assms]
        lex_exponent_end [OF assms] scale10_def)
qed

lemma lex_number_toString:
  assumes "number_end rest"
  shows "lex_number (toString 10 i @ rest) = Some (of_int i, rest)"
proof (cases "i < 0")
  case True
  have "lex_minus (0x2D # to_radix 10 (nat (- i)) @ rest) = (True, to_radix 10 (nat (- i)) @ rest)"
    by (simp add: lex_minus_def)
  with True show ?thesis
    by (simp add: toString_def lex_number_def lex_int_part_to_radix [OF assms]
        lex_fraction_end [OF assms] lex_exponent_end [OF assms] scale10_def)
next
  case False
  then show ?thesis by (simp add: toString_def lex_number_nat [OF assms])
qed

subsection \<open>The tokens of a stored collection\<close>

lemma lex_punct:
  "tokenize (0x7B # r) = map_option (Cons LBrace) (tokenize r)"
  "tokenize (0x7D # r) = map_option (Cons RBrace) (tokenize r)"
  "tokenize (0x5B # r) = map_option (Cons LBracket) (tokenize r)"
  "tokenize (0x5D # r) = map_option (Cons RBracket) (tokenize r)"
  "tokenize (0x3A # r) = map_option (Cons Colon) (tokenize r)"
  "tokenize (0x2C # r) = map_option (Cons Comma) (tokenize r)"
  by (simp_all add: tokenize.simps(2) is_json_ws_def)

lemma lex_quote: "tokenize (JSON_quote s @ r) = map_option (Cons (TString s)) (tokenize r)"
  by (simp add: JSON_quote_def tokenize.simps(2) is_json_ws_def lex_string_quote_body)

lemma quote_body_keys:
  "quote_body (js ''id'') = js ''id''"
  "quote_body (js ''text'') = js ''text''"
  "quote_body (js ''completed'') = js ''completed''"
  "quote_body (js ''createdAt'') = js ''createdAt''"
  by (simp_all add: quote_unit_def is_lead_def is_trail_def)

lemma lex_key:
  "quote_body (js k) = js k \<Longrightarrow>
   tokenize (json_key k @ r) = map_option (\<lambda>ts. TString (js k) # Colon # ts) (tokenize r)"
proof -
  assume q: "quote_body (js k) = js k"
  have "json_key k @ r = JSON_quote (js k) @ 0x3A # r"
    by (simp add: json_key_def JSON_quote_def q)
  then show ?thesis
    by (simp add: lex_quote lex_punct option.map_comp comp_def del: js_simps)
qed

lemma lex_bool:
  "tokenize (stringify_bool b @ r) = map_option (Cons (if b then TTrue else TFalse)) (tokenize r)"
  by (cases b) (simp_all add: stringify_bool_def tokenize.simps(2) is_json_ws_def is_digit_def)

lemma toString_head: "\<exists>c cs. toString 10 i = c # cs \<and> (c = 0x2D \<or> is_digit c)"
  using to_radix_head [of "nat i"] by (auto simp: toString_def)

lemma lex_num:
  assumes "number_end r"
  shows "tokenize (toString 10 i @ r) = map_option (Cons (TNumber (of_int i))) (tokenize r)"
proof -
  obtain c cs where h: "toString 10 i = c # cs" "c = 0x2D \<or> is_digit c"
    using toString_head by blast
  have u: "unat c = 45 \<or> (48 \<le> unat c \<and> unat c \<le> 57)"
    using h(2) by (auto simp: is_digit_unat)
  have "\<not> is_json_ws c" "c \<noteq> 0x7B" "c \<noteq> 0x7D" "c \<noteq> 0x5B" "c \<noteq> 0x5D" "c \<noteq> 0x3A"
    "c \<noteq> 0x2C" "c \<noteq> 0x22"
    using u by (auto simp: is_json_ws_def)
  moreover have "lex_number (c # cs @ r) = Some (of_int i, r)"
    using lex_number_toString [OF assms, of i] h(1) by simp
  ultimately have "tokenize (c # cs @ r) = map_option (Cons (TNumber (of_int i))) (tokenize r)"
    using h(2) by (simp add: tokenize.simps(2))
  then show ?thesis by (simp add: h(1))
qed

lemma number_end_brace: "number_end (0x7D # r)"
  by (simp add: number_end_def is_digit_def)

lemma lex_todo: "tokenize (stringify_todo t @ r) = map_option ((@) (todo_tokens t)) (tokenize r)"
proof -
  have "tokenize (stringify_todo t @ r) =
      map_option (\<lambda>ts. LBrace # TString (js ''id'') # Colon # TString (todo_id t) # Comma #
        TString (js ''text'') # Colon # TString (todo_text t) # Comma #
        TString (js ''completed'') # Colon # (if completed t then TTrue else TFalse) # Comma #
        TString (js ''createdAt'') # Colon # TNumber (of_int (createdAt t)) # RBrace # ts) (tokenize r)"
    by (simp add: stringify_todo_def lex_punct lex_key quote_body_keys lex_quote lex_bool
        lex_num number_end_brace option.map_comp comp_def del: js_simps)
  also have "\<dots> = map_option ((@) (todo_tokens t)) (tokenize r)"
    by (cases "tokenize r") (simp_all add: todo_tokens_def del: js_simps)
  finally show ?thesis .
qed

lemma join_comma_todos:
  "join_comma (map stringify_todo (t # ts)) = stringify_todo t @ rest_text ts"
  by (induction ts arbitrary: t) (simp_all add: rest_text_def)

lemma lex_rest:
  "tokenize (rest_text ts @ r) = map_option ((@) (rest_tokens ts)) (tokenize r)"
proof (induction ts)
  case Nil
  show ?case by (cases "tokenize r") (simp_all add: rest_tokens_def rest_text_def)
next
  case (Cons t ts)
  have "rest_text (t # ts) @ r = 0x2C # stringify_todo t @ rest_text ts @ r"
    by (simp add: rest_text_def)
  moreover have "rest_tokens (t # ts) = Comma # todo_tokens t @ rest_tokens ts"
    by (simp add: rest_tokens_def)
  ultimately show ?case
    by (cases "tokenize r") (simp_all add: lex_punct lex_todo Cons.IH)
qed

lemma lex_todos: "tokenize (stringify_todos ts) = Some (todos_tokens ts)"
proof (cases ts)
  case Nil
  then show ?thesis by (simp add: stringify_todos_def todos_tokens_def lex_punct)
next
  case (Cons t ts')
  have "stringify_todos ts = 0x5B # stringify_todo t @ rest_text ts' @ [0x5D]"
    by (simp only: Cons stringify_todos_def join_comma_todos append_assoc)
  then show ?thesis
    by (simp add: Cons todos_tokens_def lex_punct lex_todo lex_rest)
qed

subsection \<open>The value the automaton builds from them\<close>

lemma put_member_keys:
  "put_member (js ''createdAt'') v4
     (put_member (js ''completed'') v3
       (put_member (js ''text'') v2 (put_member (js ''id'') v1 []))) =
   [(js ''id'', v1), (js ''text'', v2), (js ''completed'', v3), (js ''createdAt'', v4)]"
  by simp

lemma run_todo:
  "run (Value st) (todo_tokens t @ rest) = run (After (todo_json t) st) rest"
  by (cases "completed t") (simp_all add: todo_tokens_def todo_json_def put_member_keys del: js_simps put_member.simps)

lemma run_rest:
  "run (After (todo_json t) (InArr vs # st)) (rest_tokens ts @ RBracket # rest) =
   run (After (JArr (vs @ map todo_json (t # ts))) st) rest"
proof (induction ts arbitrary: t vs)
  case Nil
  show ?case by (simp add: rest_tokens_def)
next
  case (Cons u us)
  have "run (After (todo_json t) (InArr vs # st)) (rest_tokens (u # us) @ RBracket # rest) =
      run (Value (InArr (vs @ [todo_json t]) # st)) (todo_tokens u @ rest_tokens us @ RBracket # rest)"
    by (simp add: rest_tokens_def)
  also have "\<dots> = run (After (todo_json u) (InArr (vs @ [todo_json t]) # st))
      (rest_tokens us @ RBracket # rest)"
    by (rule run_todo)
  also have "\<dots> = run (After (JArr ((vs @ [todo_json t]) @ map todo_json (u # us))) st) rest"
    by (rule Cons.IH)
  finally show ?case by simp
qed

lemma run_todos: "run (Value []) (todos_tokens ts) = Some (todos_json ts)"
proof (cases ts)
  case Nil
  then show ?thesis by (simp add: todos_tokens_def todos_json_def)
next
  case (Cons t ts')
  have "run (Value []) (todos_tokens ts) =
      run (Value [InArr []]) (todo_tokens t @ rest_tokens ts' @ [RBracket])"
    by (simp add: Cons todos_tokens_def todo_tokens_def)
  also have "\<dots> = run (After (todo_json t) [InArr []]) (rest_tokens ts' @ [RBracket])"
    by (rule run_todo)
  also have "\<dots> = run (After (JArr ([] @ map todo_json (t # ts'))) []) []"
    by (rule run_rest)
  finally show ?thesis by (simp add: Cons todos_json_def)
qed

theorem JSON_parse_stringify: "JSON_parse (stringify_todos ts) = Some (todos_json ts)"
  by (simp add: JSON_parse_def lex_todos run_todos)

lemma JSON_parse_empty: "JSON_parse [] = None"
  by (simp add: JSON_parse_def)

section \<open>Properties of the local operations\<close>

lemmas example_defs = example_state_def initial_state_def item_a_def item_b_def

lemma todos_render [simp]: "todos (render st) = todos st"
  by (simp add: render_def renderCounts_def Let_def)

lemma todos_save [simp]: "todos (save st) = todos st"
  by (simp add: save_def)

lemma trace_render [simp]: "trace (render st) = trace st @ [Render]"
  by (simp add: render_def renderCounts_def Let_def)

lemma trace_save [simp]:
  "trace (save st) = trace st @ [SetItem STORAGE_KEY (stringify_todos (todos st))]"
  by (simp add: save_def)

lemma storage_render [simp]: "storage (render st) = storage st"
  by (simp add: render_def renderCounts_def Let_def)

lemma storage_save [simp]:
  "storage (save st) = (storage st)(STORAGE_KEY \<mapsto> stringify_todos (todos st))"
  by (simp add: save_def)

lemma count_text_render [simp]:
  "count_text (view (render st)) = count_label (active_count (todos st))"
  by (simp add: render_def renderCounts_def Let_def)

lemma filter_absent: "i \<notin> todo_id ` set ts \<Longrightarrow> filter (\<lambda>x. todo_id x \<noteq> i) ts = ts"
  by (induction ts) auto

lemma deleteTodo_absent_todos:
  "i \<notin> todo_id ` set (todos st) \<Longrightarrow> todos (deleteTodo i st) = todos st"
  by (simp add: deleteTodo_def filter_absent)

lemma deleteTodo_trace:
  "trace (deleteTodo i st) =
     trace st @ [SetItem STORAGE_KEY (stringify_todos (todos (deleteTodo i st))), Render]"
  by (simp add: deleteTodo_def)

lemma find_None_iff_absent:
  "find (\<lambda>x. todo_id x = i) ts = None \<longleftrightarrow> i \<notin> todo_id ` set ts"
  by (induction ts) auto

lemma assign_completed_index:
  "find (\<lambda>x. todo_id x = i) ts = Some t \<Longrightarrow>
   \<exists>k<length ts. ts ! k = t \<and> todo_id t = i \<and> (\<forall>j<k. todo_id (ts ! j) \<noteq> i) \<and>
     assign_completed i c ts = ts[k := t\<lparr>completed := c\<rparr>]"
proof (induction ts)
  case Nil
  then show ?case by simp
next
  case (Cons x xs)
  show ?case
  proof (cases "todo_id x = i")
    case True
    with Cons.prems have "x = t" by simp
    with True show ?thesis by (intro exI [of _ 0]) simp
  next
    case False
    with Cons.prems have "find (\<lambda>x. todo_id x = i) xs = Some t" by simp
    from Cons.IH [OF this] obtain k where k: "k < length xs" "xs ! k = t" "todo_id t = i"
      "\<forall>j<k. todo_id (xs ! j) \<noteq> i" "assign_completed i c xs = xs[k := t\<lparr>completed := c\<rparr>]"
      by blast
    have "\<forall>j<Suc k. todo_id ((x # xs) ! j) \<noteq> i"
      using False k(4) by (auto simp: less_Suc_eq_0_disj)
    with k False show ?thesis by (intro exI [of _ "Suc k"]) simp
  qed
qed

lemma find_assign_completed:
  "find (\<lambda>x. todo_id x = i) ts = Some t \<Longrightarrow>
   find (\<lambda>x. todo_id x = i) (assign_completed i c ts) = Some (t\<lparr>completed := c\<rparr>)"
  by (induction ts) auto

lemma active_count_assign_completed:
  "find (\<lambda>x. todo_id x = i) ts = Some t \<Longrightarrow> completed t \<noteq> c \<Longrightarrow>
   (if c then active_count (assign_completed i c ts) + 1 = active_count ts
    else active_count (assign_completed i c ts) = active_count ts + 1)"
  by (induction ts) (auto simp: active_count_def)

lemma active_count_assign_same:
  "find (\<lambda>x. todo_id x = i) ts = Some t \<Longrightarrow> completed t = c \<Longrightarrow>
   assign_completed i c ts = ts"
  by (induction ts) auto

lemma todos_toggleTodo:
  "find (\<lambda>x. todo_id x = i) (todos st) = Some t \<Longrightarrow>
   todos (toggleTodo i c st) = assign_completed i c (todos st)"
  by (simp add: toggleTodo_def)

lemma toggleTodo_without_flag:
  "map without_flag (todos (toggleTodo i c st)) = map without_flag (todos st)"
proof (cases "find (\<lambda>x. todo_id x = i) (todos st)")
  case None
  then show ?thesis by (simp add: toggleTodo_def)
next
  case (Some t)
  have "map without_flag (assign_completed i c ts) = map without_flag ts" for ts
    by (induction ts) (simp_all add: without_flag_def)
  with Some show ?thesis by (simp add: toggleTodo_def)
qed




lemma todos_clearCompleted:
  "todos (clearCompleted st) = filter (\<lambda>x. \<not> completed x) (todos st)"
  by (simp add: clearCompleted_def Let_def)

section \<open>Properties of the remote operations\<close>

lemma sent_api: "sent (snd (api fetch req st)) = sent st @ [req]"
  by (simp add: api_def Let_def split: prod.splits sum.splits option.splits)

lemma todos_api: "todos_remote (snd (api fetch req st)) = todos_remote st"
  by (simp add: api_def Let_def split: prod.splits sum.splits option.splits)

lemma sent_render_remote [simp]: "sent (render_remote st) = sent st"
  by (simp add: render_remote_def renderCounts_remote_def Let_def)

lemma sent_fetchTodos: "sent (snd (fetchTodos fetch st)) = sent st @ [\<lparr>req_method = GET, url = js ''/todos'', body = None\<rparr>]"
proof -
  obtain got st' where a: "api fetch \<lparr>req_method = GET, url = js ''/todos'', body = None\<rparr> st = (got, st')"
    by (cases "api fetch \<lparr>req_method = GET, url = js ''/todos'', body = None\<rparr> st")
  then have "sent st' = sent st @ [\<lparr>req_method = GET, url = js ''/todos'', body = None\<rparr>]"
    using sent_api [of fetch "\<lparr>req_method = GET, url = js ''/todos'', body = None\<rparr>" st] by simp
  with a show ?thesis
    by (simp add: fetchTodos_def split: sum.splits option.splits)
qed

lemma persistence_calls_fetchTodos:
  "persistence_calls (snd (fetchTodos fetch st)) = persistence_calls st"
  by (simp add: persistence_calls_def sent_fetchTodos)

lemma persistence_calls_api:
  "persistence_calls (snd (api fetch req st)) =
     persistence_calls st @ (if req_method req \<noteq> GET then [req] else [])"
  by (simp add: persistence_calls_def sent_api)

lemma persistence_calls_toggle:
  "persistence_calls (snd (toggleTodo_remote fetch i c st)) = persistence_calls st @ [put_request i c]"
proof -
  obtain got st' where a: "api fetch (put_request i c) st = (got, st')"
    by (cases "api fetch (put_request i c) st")
  then have "persistence_calls st' = persistence_calls st @ [put_request i c]"
    using persistence_calls_api [of fetch "put_request i c" st] by (simp add: put_request_def)
  with a show ?thesis
    by (cases got) (simp_all add: toggleTodo_remote_def persistence_calls_fetchTodos)
qed

lemma persistence_calls_delete:
  "persistence_calls (snd (deleteTodo_remote fetch i st)) = persistence_calls st @ [delete_request i]"
proof -
  obtain got st' where a: "api fetch (delete_request i) st = (got, st')"
    by (cases "api fetch (delete_request i) st")
  then have "persistence_calls st' = persistence_calls st @ [delete_request i]"
    using persistence_calls_api [of fetch "delete_request i" st] by (simp add: delete_request_def)
  with a show ?thesis
    by (cases got) (simp_all add: deleteTodo_remote_def persistence_calls_fetchTodos)
qed


lemma todos_api_all: "todos_remote (snd (api_all fetch rs st)) = todos_remote st"
proof (induction rs arbitrary: st)
  case Nil
  show ?case by simp
next
  case (Cons r rs)
  obtain got st' where a: "api fetch r st = (got, st')" by (cases "api fetch r st")
  then have "todos_remote st' = todos_remote st" using todos_api [of fetch r st] by simp
  with a Cons [of st'] show ?case by (cases "api_all fetch rs st'") simp
qed


section \<open>The claims\<close>

text \<open>
  Claim C1 says that deleting an id that is not in the collection is a no-op: no
  persistence call, no re-render.  \<open>deleteTodo\<close> has no guard.  On the empty collection
  it leaves the collection as it is and still calls \<open>setItem\<close> and \<open>render\<close>; in the
  remote variant it sends the \<open>DELETE\<close> request.
\<close>

theorem deleteTodo_absent_persists_and_renders:
  "js ''x'' \<notin> todo_id ` set (todos initial_state) \<and>
   todos (deleteTodo (js ''x'') initial_state) = todos initial_state \<and>
   trace initial_state = [] \<and>
   trace (deleteTodo (js ''x'') initial_state) = [SetItem (js ''todos:v1'') (js ''[]''), Render] \<and>
   persistence_calls (snd (deleteTodo_remote not_found (IdString (js ''x'')) initial_remote)) =
     [delete_request (IdString (js ''x''))]"
  by (simp add: persistence_calls_delete)
     (simp add: deleteTodo_def initial_state_def stringify_todos_def STORAGE_KEY_def
       initial_remote_def persistence_calls_def)

text \<open>
  Claim C2 as stated covers both variants.  In the remote variant \<open>toggleTodo\<close> does not
  look at the collection: for an id that is not in it, it still sends the \<open>PUT\<close>
  request.
\<close>

theorem toggleTodo_remote_absent_counterexample:
  "IdString (js ''x'') \<notin> item_id ` set (todos_remote initial_remote) \<and>
   persistence_calls initial_remote = [] \<and>
   persistence_calls (snd (toggleTodo_remote not_found (IdString (js ''x'')) True initial_remote)) =
     [\<lparr>req_method = PUT, url = js ''/todos/x'', body = Some (0x7B # json_key ''is_completed'' @ js ''true}'')\<rparr>]"
  by (simp add: persistence_calls_toggle put_request_def stringify_bool_def)
     (simp add: initial_remote_def persistence_calls_def)

text \<open>
  Claim C2, amended.  In the local variant, for an id that is not in the collection
  \<open>toggleTodo\<close> returns the state as it was (no item changed, nothing stored, nothing
  rendered); for an id in the collection, the item that \<open>find\<close> returns for it has the
  given flag afterwards, and the new collection is written to the storage by one
  \<open>setItem\<close> call, followed by one \<open>render\<close>.  In the remote variant, for every id,
  in the collection or not, \<open>toggleTodo\<close> sends exactly one request that changes the
  server: \<open>PUT /todos/<id>\<close> with the body \<open>{"is_completed":<flag>}\<close>, the given flag.
\<close>

theorem toggleTodo_sets_flag_and_persists:
  "(i \<notin> todo_id ` set (todos st) \<longrightarrow> toggleTodo i c st = st) \<and>
   (i \<in> todo_id ` set (todos st) \<longrightarrow>
      (\<exists>t. find (\<lambda>x. todo_id x = i) (todos st) = Some t \<and>
           find (\<lambda>x. todo_id x = i) (todos (toggleTodo i c st)) = Some (t\<lparr>completed := c\<rparr>)) \<and>
      storage (toggleTodo i c st) STORAGE_KEY = Some (stringify_todos (todos (toggleTodo i c st))) \<and>
      trace (toggleTodo i c st) =
        trace st @ [SetItem STORAGE_KEY (stringify_todos (todos (toggleTodo i c st))), Render]) \<and>
   persistence_calls (snd (toggleTodo_remote fetch j c rst)) =
     persistence_calls rst @
     [\<lparr>req_method = PUT, url = js ''/todos/'' @ ident_text j,
       body = Some (0x7B # json_key ''is_completed'' @ stringify_bool c @ [0x7D])\<rparr>]"
proof -
  have remote: "persistence_calls (snd (toggleTodo_remote fetch j c rst)) =
     persistence_calls rst @
     [\<lparr>req_method = PUT, url = js ''/todos/'' @ ident_text j,
       body = Some (0x7B # json_key ''is_completed'' @ stringify_bool c @ [0x7D])\<rparr>]"
    using persistence_calls_toggle [of fetch j c rst] by (simp only: put_request_def)
  show ?thesis
  proof (cases "find (\<lambda>x. todo_id x = i) (todos st)")
    case None
    then have "i \<notin> todo_id ` set (todos st)" by (simp add: find_None_iff_absent)
    with None remote show ?thesis by (simp add: toggleTodo_def)
  next
    case (Some t)
    then have "i \<in> todo_id ` set (todos st)"
      using find_None_iff_absent [of i "todos st"] by simp
    with Some find_assign_completed [OF Some, of c] remote show ?thesis
      by (simp add: toggleTodo_def)
  qed
qed

theorem toggleTodo_sets_flag_and_persists_witness:
  "js ''z'' \<notin> todo_id ` set (todos example_state) \<and>
   toggleTodo (js ''z'') True example_state = example_state \<and>
   js ''a'' \<in> todo_id ` set (todos example_state) \<and>
   find (\<lambda>x. todo_id x = js ''a'') (todos (toggleTodo (js ''a'') True example_state)) =
     Some (item_a\<lparr>completed := True\<rparr>) \<and>
   trace (toggleTodo (js ''a'') True example_state) =
     trace example_state @
     [SetItem STORAGE_KEY (stringify_todos [item_a\<lparr>completed := True\<rparr>, item_b]), Render] \<and>
   persistence_calls (snd (toggleTodo_remote not_found (IdNumber 1) True example_remote)) =
     [\<lparr>req_method = PUT, url = js ''/todos/1'',
       body = Some (0x7B # json_key ''is_completed'' @ js ''true}'')\<rparr>] \<and>
   persistence_calls (snd (toggleTodo_remote not_found (IdNumber 9) False example_remote)) =
     [\<lparr>req_method = PUT, url = js ''/todos/9'',
       body = Some (0x7B # json_key ''is_completed'' @ js ''false}'')\<rparr>]"
  using toggleTodo_sets_flag_and_persists [of "js ''z''" example_state True not_found "IdNumber 1" example_remote]
    toggleTodo_sets_flag_and_persists [of "js ''a''" example_state True not_found "IdNumber 1" example_remote]
    toggleTodo_sets_flag_and_persists [of "js ''a''" example_state False not_found "IdNumber 9" example_remote]
  by (simp add: example_defs toggleTodo_def example_remote_def initial_remote_def
      persistence_calls_def stringify_bool_def toString_def to_radix.simps digit_unit_def)



text \<open>
  Claim C4: when the trimmed input is empty (the input consists of white space only),
  \<open>addTodo\<close> returns the state as it was: the collection, the storage, the document
  and the log of effects are unchanged; the remote variant sends no request.
\<close>

theorem addTodo_blank_is_noop:
  assumes "trim text_in = []"
  shows "addTodo now rnd now' text_in st = st \<and>
         addTodo_remote fetch text_in rst = (None, rst) \<and>
         (\<forall>c\<in>set text_in. is_ws c)"
  using assms by (simp add: addTodo_def addTodo_remote_def trim_empty_iff)

theorem addTodo_blank_is_noop_witness:
  "trim (js ''   '') = [] \<and>
   addTodo 1700000000000 (js ''0.4fzyo82mvyr'') 1700000000000 (js ''   '') example_state = example_state \<and>
   addTodo_remote not_found (js ''   '') example_remote = (None, example_remote)"
  using addTodo_blank_is_noop [of "js ''   ''" 1700000000000 "js ''0.4fzyo82mvyr''" 1700000000000
      example_state not_found example_remote]
  by (simp add: trim_def is_ws_def)

text \<open>
  Claim C5 as stated (the active count changes by exactly one after every toggle of a
  present id) fails when the item already has the requested flag: the count and the
  label stay as they were.
\<close>

theorem toggleTodo_same_flag_counterexample:
  "js ''b'' \<in> todo_id ` set (todos example_state) \<and>
   active_count (todos (toggleTodo (js ''b'') True example_state)) =
     active_count (todos example_state) \<and>
   count_text (view (toggleTodo (js ''b'') True example_state)) =
     count_text (view example_state)"
  by (simp add: example_defs toggleTodo_def active_count_def)

text \<open>
  Claim C5, amended: the label after \<open>toggleTodo\<close> shows the new active count.  When
  the item that \<open>find\<close> returns for the id has a flag different from the requested
  one, the count is one less than before when completing and one more when
  un-completing; when the item already has the requested flag, the count is the same.
\<close>

theorem toggleTodo_active_count:
  assumes "find (\<lambda>x. todo_id x = i) (todos st) = Some t"
  shows "count_text (view (toggleTodo i c st)) =
           count_label (active_count (todos (toggleTodo i c st))) \<and>
         (if completed t = c then
            active_count (todos (toggleTodo i c st)) = active_count (todos st)
          else if c then
            active_count (todos (toggleTodo i c st)) + 1 = active_count (todos st)
          else active_count (todos (toggleTodo i c st)) = active_count (todos st) + 1)"
proof -
  have eq: "todos (toggleTodo i c st) = assign_completed i c (todos st)"
    using assms by (rule todos_toggleTodo)
  have label: "count_text (view (toggleTodo i c st)) =
      count_label (active_count (todos (toggleTodo i c st)))"
    using assms by (simp add: toggleTodo_def)
  show ?thesis
  proof (cases "completed t = c")
    case True
    with assms have "assign_completed i c (todos st) = todos st"
      by (rule active_count_assign_same)
    with True label eq show ?thesis by simp
  next
    case False
    from active_count_assign_completed [OF assms False] False label eq show ?thesis
      by (cases c) simp_all
  qed
qed

theorem toggleTodo_active_count_witness:
  "find (\<lambda>x. todo_id x = js ''a'') (todos example_state) = Some item_a \<and>
   completed item_a \<noteq> True \<and>
   active_count (todos example_state) = 1 \<and>
   active_count (todos (toggleTodo (js ''a'') True example_state)) = 0 \<and>
   count_text (view example_state) = js ''1 item'' \<and>
   count_text (view (toggleTodo (js ''a'') True example_state)) = js ''0 items''"
  using toggleTodo_active_count [of "js ''a''" example_state item_a True]
  by (simp add: example_defs active_count_def count_label_def toString_def to_radix.simps
      digit_unit_def)

text \<open>
  Claim C6: \<open>load\<close> never raises; it yields the empty array when reading the storage
  fails, when the key is missing and when the stored string is not JSON (the empty
  string among them), and the parsed value on every other stored string.
\<close>

theorem load_never_raises:
  "(\<exists>v. load got = Inr v) \<and>
   load (Inl e) = Inr (JArr []) \<and>
   load (Inr None) = Inr (JArr []) \<and>
   load (Inr (Some raw)) = Inr (case JSON_parse raw of None \<Rightarrow> JArr [] | Some v \<Rightarrow> v)"
proof -
  have "\<exists>v. load got = Inr v"
    by (cases "load_try got") (simp_all add: load_def)
  moreover have "load (Inr (Some raw)) = Inr (case JSON_parse raw of None \<Rightarrow> JArr [] | Some v \<Rightarrow> v)"
    by (cases "raw = []")
      (simp_all add: load_def load_try_def JSON_parse_or_throw_def JSON_parse_empty
        split: option.splits)
  ultimately show ?thesis by (simp add: load_def load_try_def)
qed

text \<open>
  Claim C7: after \<open>save\<close>, \<open>load\<close> yields an array with one object per item of the saved
  collection, in the same order, whose properties \<open>id\<close>, \<open>text\<close> and \<open>completed\<close> are
  the item's identifier, text and completion flag.
\<close>

theorem save_load_roundtrip:
  "load (getItem (storage (save st)) STORAGE_KEY) = Inr (JArr (map todo_json (todos st))) \<and>
   get_prop (js ''id'') (todo_json t) = Some (JStr (todo_id t)) \<and>
   get_prop (js ''text'') (todo_json t) = Some (JStr (todo_text t)) \<and>
   get_prop (js ''completed'') (todo_json t) = Some (JBool (completed t))"
proof -
  have "stringify_todos (todos st) \<noteq> []" by (simp add: stringify_todos_def)
  then have "load (getItem (storage (save st)) STORAGE_KEY) = Inr (todos_json (todos st))"
    by (simp add: load_def load_try_def getItem_def JSON_parse_or_throw_def JSON_parse_stringify)
  then show ?thesis by (simp add: todos_json_def todo_json_def get_prop_def)
qed

text \<open>
  Claim C8: the count label, as \<open>renderCounts\<close> and \<open>render\<close> leave it, is the decimal
  numeral of the number of items whose completion flag is false, a space, and \<open>item\<close>
  when that number is 1, \<open>items\<close> otherwise; in both variants.  The numeral read back
  as a number is the count.
\<close>

theorem count_label_shows_active_count:
  "count_text (view (renderCounts st)) =
     toString 10 (int (active_count (todos st))) @ js '' '' @
     (if active_count (todos st) = 1 then js ''item'' else js ''items'') \<and>
   count_text (view (render st)) = count_text (view (renderCounts st)) \<and>
   active_count (todos st) = card {k. k < length (todos st) \<and> \<not> completed (todos st ! k)} \<and>
   count_text (view_remote (renderCounts_remote rst)) =
     toString 10 (int (active_count_remote (todos_remote rst))) @ js '' '' @
     (if active_count_remote (todos_remote rst) = 1 then js ''item'' else js ''items'') \<and>
   count_text (view_remote (render_remote rst)) = count_text (view_remote (renderCounts_remote rst)) \<and>
   active_count_remote (todos_remote rst) =
     card {k. k < length (todos_remote rst) \<and> \<not> is_completed (todos_remote rst ! k)} \<and>
   digits_value (toString 10 (int n)) = n"
proof -
  have "digits_value (toString 10 (int n)) = n"
    by (simp add: toString_def digits_value_to_radix)
  then show ?thesis
    by (simp add: renderCounts_def render_def renderCounts_remote_def render_remote_def Let_def
        count_label_def active_count_def active_count_remote_def length_filter_conv_card)
qed

text \<open>
  Claim C9: \<open>addTodo\<close> with a non-blank text puts the new item in front of the old
  collection, which follows unchanged; \<open>toggleTodo\<close> keeps every item in its place
  (only a flag may differ); \<open>deleteTodo\<close> and \<open>clearCompleted\<close> keep the remaining items
  in their order.
\<close>

theorem local_order:
  "todos (addTodo now rnd now' text_in st) =
     (if trim text_in = [] then todos st
      else \<lparr>todo_id = nextId now rnd, todo_text = trim text_in, completed = False,
            createdAt = now'\<rparr> # todos st) \<and>
   map without_flag (todos (toggleTodo i c st)) = map without_flag (todos st) \<and>
   todos (deleteTodo i st) = filter (\<lambda>x. todo_id x \<noteq> i) (todos st) \<and>
   todos (clearCompleted st) = filter (\<lambda>x. \<not> completed x) (todos st) \<and>
   subseq (todos (deleteTodo i st)) (todos st) \<and>
   subseq (todos (clearCompleted st)) (todos st)"
proof -
  have a: "todos (addTodo now rnd now' text_in st) =
     (if trim text_in = [] then todos st
      else \<lparr>todo_id = nextId now rnd, todo_text = trim text_in, completed = False,
            createdAt = now'\<rparr> # todos st)"
    by (simp add: addTodo_def Let_def)
  have t: "map without_flag (todos (toggleTodo i c st)) = map without_flag (todos st)"
    by (rule toggleTodo_without_flag)
  have d: "todos (deleteTodo i st) = filter (\<lambda>x. todo_id x \<noteq> i) (todos st)"
    by (simp add: deleteTodo_def)
  have c: "todos (clearCompleted st) = filter (\<lambda>x. \<not> completed x) (todos st)"
    by (rule todos_clearCompleted)
  have "subseq (filter P xs) xs" for P and xs :: "todo list"
    by (rule subseq_filter_left)
  with a t d c show ?thesis by simp
qed

text \<open>
  Claim C10: for an id in the collection, \<open>toggleTodo\<close> changes the completion flag of
  the first item with that id and nothing else: the collection is the old one updated
  at that one index, so its length, the item's id, text and creation time, every other
  item and the order of the items are unchanged.
\<close>

theorem toggleTodo_frame:
  assumes "i \<in> todo_id ` set (todos st)"
  shows "\<exists>k<length (todos st).
           todo_id (todos st ! k) = i \<and> (\<forall>j<k. todo_id (todos st ! j) \<noteq> i) \<and>
           todos (toggleTodo i c st) = (todos st)[k := (todos st ! k)\<lparr>completed := c\<rparr>] \<and>
           length (todos (toggleTodo i c st)) = length (todos st) \<and>
           todo_id (todos (toggleTodo i c st) ! k) = todo_id (todos st ! k) \<and>
           todo_text (todos (toggleTodo i c st) ! k) = todo_text (todos st ! k) \<and>
           createdAt (todos (toggleTodo i c st) ! k) = createdAt (todos st ! k) \<and>
           completed (todos (toggleTodo i c st) ! k) = c \<and>
           (\<forall>j<length (todos st). j \<noteq> k \<longrightarrow> todos (toggleTodo i c st) ! j = todos st ! j)"
proof -
  from assms obtain t where t: "find (\<lambda>x. todo_id x = i) (todos st) = Some t"
    using find_None_iff_absent [of i "todos st"] by (cases "find (\<lambda>x. todo_id x = i) (todos st)") auto
  from assign_completed_index [OF t, of c] obtain k where k: "k < length (todos st)"
    "todos st ! k = t" "todo_id t = i" "\<forall>j<k. todo_id (todos st ! j) \<noteq> i"
    "assign_completed i c (todos st) = (todos st)[k := t\<lparr>completed := c\<rparr>]"
    by blast
  have eq: "todos (toggleTodo i c st) = (todos st)[k := (todos st ! k)\<lparr>completed := c\<rparr>]"
    using todos_toggleTodo [OF t, of c] k(2,5) by simp
  show ?thesis
    using k(1-4) by (intro exI [of _ k]) (simp add: eq)
qed

theorem toggleTodo_frame_witness:
  "js ''b'' \<in> todo_id ` set (todos example_state) \<and>
   todos (toggleTodo (js ''b'') False example_state) = [item_a, item_b\<lparr>completed := False\<rparr>]"
  using toggleTodo_frame [of "js ''b''" example_state False]
  by (simp add: example_defs toggleTodo_def)

section \<open>Further properties of the local operations\<close>

text \<open>
  The example of the specification: on \<open>[{a, false}, {b, true}]\<close>, \<open>clearCompleted\<close>
  leaves \<open>[{a, false}]\<close> and the label \<open>1 item\<close>.
\<close>

theorem clearCompleted_example:
  "todos example_state = [item_a, item_b] \<and>
   todos (clearCompleted example_state) = [item_a] \<and>
   count_text (view (clearCompleted example_state)) = js ''1 item''"
  by (simp add: example_defs clearCompleted_def Let_def active_count_def count_label_def
      toString_def to_radix.simps digit_unit_def)

text \<open>
  \<open>deleteTodo\<close> removes every item with the given id, writes the remaining collection
  to the storage and renders, whether or not an item was removed.
\<close>

theorem deleteTodo_removes_and_persists:
  "todos (deleteTodo i st) = filter (\<lambda>x. todo_id x \<noteq> i) (todos st) \<and>
   storage (deleteTodo i st) STORAGE_KEY =
     Some (stringify_todos (filter (\<lambda>x. todo_id x \<noteq> i) (todos st))) \<and>
   trace (deleteTodo i st) =
     trace st @ [SetItem STORAGE_KEY (stringify_todos (filter (\<lambda>x. todo_id x \<noteq> i) (todos st))), Render]"
  by (simp add: deleteTodo_def)

text \<open>
  \<open>addTodo\<close> with a non-blank text: the new item has the trimmed text and is not
  completed; the new collection is written to the storage and rendered.
\<close>

theorem addTodo_creates_and_persists:
  assumes "trim text_in \<noteq> []"
  shows "todos (addTodo now rnd now' text_in st) =
           \<lparr>todo_id = nextId now rnd, todo_text = trim text_in, completed = False,
            createdAt = now'\<rparr> # todos st \<and>
         storage (addTodo now rnd now' text_in st) STORAGE_KEY =
           Some (stringify_todos (todos (addTodo now rnd now' text_in st))) \<and>
         trace (addTodo now rnd now' text_in st) =
           trace st @
           [SetItem STORAGE_KEY (stringify_todos (todos (addTodo now rnd now' text_in st))), Render]"
  using assms by (simp add: addTodo_def Let_def)

theorem addTodo_creates_and_persists_witness:
  "trim (js '' buy milk '') \<noteq> [] \<and>
   todos (addTodo 1 (js ''0.abcdefghij'') 2 (js '' buy milk '') initial_state) =
     [\<lparr>todo_id = js ''1abcdef'', todo_text = js ''buy milk'', completed = False, createdAt = 2\<rparr>]"
  using addTodo_creates_and_persists [of "js '' buy milk ''" 1 "js ''0.abcdefghij''" 2 initial_state]
  by (simp add: trim_def is_ws_def initial_state_def nextId_def slice_def toString_def
      to_radix.simps digit_unit_def)

text \<open>
  \<open>render\<close> builds one row per item, in the order of the collection, and shows the
  empty-state placeholder exactly when the collection is empty; it changes neither
  the collection nor the storage.
\<close>

theorem render_rows_and_placeholder:
  "list_rows (view (render st)) = map render_row (todos st) \<and>
   empty_display (view (render st)) = (if todos st = [] then js ''block'' else js ''none'') \<and>
   todos (render st) = todos st \<and> storage (render st) = storage st"
  by (simp add: render_def renderCounts_def Let_def)

end
